theory Spec2Isabelle
  imports Complex_Main "HOL-Library.Char_ord" "HOL-Library.List_Lexorder" "HOL-Library.Multiset"
begin

section \<open>Aggregation documents\<close>

text \<open>
  A JavaScript string is kept as a \<open>string\<close> holding its UTF-8 bytes, so that the em dash
  of the dashboard and ASCII text live in one type. String comparison of the document store
  is the lexicographic order of these bytes, which is what ISO-8601 timestamps are compared by.

  The scalar JSON values a measurement field of a stored document can hold. A JSON number is
  finite and is kept as the exact rational it denotes: rounding to IEEE doubles is not
  modelled. A field that is absent from the document (JavaScript \<open>undefined\<close>) is \<open>None\<close> at
  the field's type \<open>json option\<close>. Nested arrays and objects are outside the data model.
\<close>

datatype json = JNull | JBool bool | JNum rat | JStr string

text \<open>
  One aggregation document as both \<open>server.js\<close> and \<open>app.js\<close> read it. \<open>location\<close>,
  \<open>windowEnd\<close> and \<open>safetyStatus\<close> are strings when present (\<open>None\<close> stands for an absent
  or \<open>null\<close> field: the code only ever tests them with \<open>||\<close>, which treats both alike).
\<close>

record AggregationDocument =
  location :: "string option"
  windowEnd :: "string option"
  avgIceThickness :: "json option"
  avgSurfaceTemperature :: "json option"
  maxSnowAccumulation :: "json option"
  safetyStatus :: "string option"
  readingCount :: "json option"

text \<open>\<open>s || dflt\<close> on an optional string: the empty string is falsy.\<close>

definition or_string :: "string option \<Rightarrow> string \<Rightarrow> string" where
  "or_string v dflt = (case v of None \<Rightarrow> dflt | Some s \<Rightarrow> if s = [] then dflt else s)"

section \<open>Plain objects used as dictionaries\<close>

text \<open>
  \<open>const latestByLocation = {}\<close> is an ordinary object: besides its own properties it
  inherits those of \<open>Object.prototype\<close>, and a read \<open>obj[k]\<close> finds them. These are the
  property names of \<open>Object.prototype\<close>; each of them holds a function (or, for
  \<open>__proto__\<close>, the prototype object itself), so each reads as a truthy value.
\<close>

definition Object_prototype_keys :: "string list" where
  "Object_prototype_keys =
     [''constructor'', ''__defineGetter__'', ''__defineSetter__'', ''hasOwnProperty'',
      ''__lookupGetter__'', ''__lookupSetter__'', ''isPrototypeOf'', ''propertyIsEnumerable'',
      ''toString'', ''valueOf'', ''__proto__'', ''toLocaleString'']"

text \<open>
  The own properties of such an object, in insertion order. A read \<open>obj[k]\<close> yields the own
  value, else the inherited one, else \<open>undefined\<close>.
\<close>

datatype 'v property = Own 'v | Inherited | Undefined

definition get_property :: "(string \<times> 'v) list \<Rightarrow> string \<Rightarrow> 'v property" where
  "get_property obj k =
     (case map_of obj k of
        Some v \<Rightarrow> Own v
      | None \<Rightarrow> if k \<in> set Object_prototype_keys then Inherited else Undefined)"

text \<open>
  \<open>Object.values\<close> lists own property values with the array-index keys first, in
  ascending numeric order, then the other string keys in insertion order. An array index is
  the canonical decimal text of an integer below \<open>2^32 - 1\<close>.
\<close>

definition digit_of :: "char \<Rightarrow> nat option" where
  "digit_of c =
     (if CHR ''0'' \<le> c \<and> c \<le> CHR ''9'' then Some (of_char c - of_char CHR ''0'')
      else if CHR ''a'' \<le> c \<and> c \<le> CHR ''f'' then Some (of_char c - of_char CHR ''a'' + 10)
      else if CHR ''A'' \<le> c \<and> c \<le> CHR ''F'' then Some (of_char c - of_char CHR ''A'' + 10)
      else None)"

fun digits_value :: "nat \<Rightarrow> nat \<Rightarrow> string \<Rightarrow> nat option" where
  "digits_value base acc [] = Some acc"
| "digits_value base acc (c # cs) =
     (case digit_of c of
        None \<Rightarrow> None
      | Some d \<Rightarrow> if d < base then digits_value base (base * acc + d) cs else None)"

definition array_index :: "string \<Rightarrow> nat option" where
  "array_index k =
     (if k = [] \<or> (hd k = CHR ''0'' \<and> k \<noteq> ''0'') then None
      else case digits_value 10 0 k of
             None \<Rightarrow> None
           | Some n \<Rightarrow> if n < 4294967295 then Some n else None)"

definition index_key :: "string \<times> 'v \<Rightarrow> nat" where
  "index_key kv = (case array_index (fst kv) of Some n \<Rightarrow> n | None \<Rightarrow> 0)"

definition Object_values :: "(string \<times> 'v) list \<Rightarrow> 'v list" where
  "Object_values obj =
     map snd (sort_key index_key (filter (\<lambda>kv. array_index (fst kv) \<noteq> None) obj))
     @ map snd (filter (\<lambda>kv. array_index (fst kv) = None) obj)"

text \<open>An assignment \<open>obj[k] = v\<close>: an own property keeps its place, a new one goes last.\<close>

fun set_property :: "(string \<times> 'v) list \<Rightarrow> string \<Rightarrow> 'v \<Rightarrow> (string \<times> 'v) list" where
  "set_property [] k v = [(k, v)]"
| "set_property ((k', v') # obj) k v =
     (if k' = k then (k, v) # obj else (k', v') # set_property obj k v)"

section \<open>Numbers and the built-in conversions the code calls\<close>

text \<open>
  A JavaScript number: \<open>NaN\<close>, an infinity, or a finite value kept as an exact rational
  (every finite double is one; negative zero is not told apart from zero).
\<close>

datatype jsnum = NaN | PosInf | NegInf | Fin rat

text \<open>
  \<open>Number(s)\<close> on a string is the abstract operation StringToNumber of ECMAScript: the
  string is trimmed of white space and line terminators (listed here by their UTF-8
  encodings), the empty string is 0, and otherwise the text must be a StrNumericLiteral:
  a signed decimal literal with optional fraction and exponent, \<open>Infinity\<close>, or an unsigned
  binary, octal or hexadecimal integer. Anything else is \<open>NaN\<close>.
\<close>

definition StrWhiteSpaceChar :: "string list" where
  "StrWhiteSpaceChar =
     [[CHR 0x09], [CHR 0x0A], [CHR 0x0B], [CHR 0x0C], [CHR 0x0D], [CHR 0x20],
      [CHR 0xC2, CHR 0xA0], [CHR 0xE1, CHR 0x9A, CHR 0x80],
      [CHR 0xE2, CHR 0x80, CHR 0x80], [CHR 0xE2, CHR 0x80, CHR 0x81],
      [CHR 0xE2, CHR 0x80, CHR 0x82], [CHR 0xE2, CHR 0x80, CHR 0x83],
      [CHR 0xE2, CHR 0x80, CHR 0x84], [CHR 0xE2, CHR 0x80, CHR 0x85],
      [CHR 0xE2, CHR 0x80, CHR 0x86], [CHR 0xE2, CHR 0x80, CHR 0x87],
      [CHR 0xE2, CHR 0x80, CHR 0x88], [CHR 0xE2, CHR 0x80, CHR 0x89],
      [CHR 0xE2, CHR 0x80, CHR 0x8A], [CHR 0xE2, CHR 0x80, CHR 0xA8],
      [CHR 0xE2, CHR 0x80, CHR 0xA9], [CHR 0xE2, CHR 0x80, CHR 0xAF],
      [CHR 0xE2, CHR 0x81, CHR 0x9F], [CHR 0xE3, CHR 0x80, CHR 0x80],
      [CHR 0xEF, CHR 0xBB, CHR 0xBF]]"

fun strip_leading :: "string list \<Rightarrow> string \<Rightarrow> string" where
  "strip_leading ws [] = []"
| "strip_leading ws (c # cs) =
     (case find (\<lambda>w. w \<noteq> [] \<and> take (length w) (c # cs) = w) ws of
        None \<Rightarrow> c # cs
      | Some w \<Rightarrow> strip_leading ws (drop (length w - 1) cs))"

definition trim :: "string \<Rightarrow> string" where
  "trim s =
     rev (strip_leading (map rev StrWhiteSpaceChar) (rev (strip_leading StrWhiteSpaceChar s)))"

definition pow10 :: "int \<Rightarrow> rat" where
  "pow10 e = (if 0 \<le> e then 10 ^ nat e else 1 / 10 ^ nat (- e))"

definition DecimalDigits :: "string \<Rightarrow> nat option" where
  "DecimalDigits s = (if s = [] then None else digits_value 10 0 s)"

definition SignedInteger :: "string \<Rightarrow> int option" where
  "SignedInteger s =
     (case s of
        [] \<Rightarrow> None
      | c # cs \<Rightarrow>
          if c = CHR ''+'' then map_option int (DecimalDigits cs)
          else if c = CHR ''-'' then map_option (\<lambda>n. - int n) (DecimalDigits cs)
          else map_option int (DecimalDigits s))"

text \<open>
  The mathematical value of \<open>digits . digits exponent\<close>, \<open>. digits exponent\<close> or
  \<open>digits exponent\<close>; \<open>None\<close> when the text is none of these.
\<close>

definition StrUnsignedDecimalLiteral :: "string \<Rightarrow> rat option" where
  "StrUnsignedDecimalLiteral s =
     (let is_exp = (\<lambda>c. c = CHR ''e'' \<or> c = CHR ''E'');
          m = takeWhile (\<lambda>c. \<not> is_exp c) s;
          x = dropWhile (\<lambda>c. \<not> is_exp c) s;
          i = takeWhile (\<lambda>c. c \<noteq> CHR ''.'') m;
          f = drop 1 (dropWhile (\<lambda>c. c \<noteq> CHR ''.'') m);
          dotted = (dropWhile (\<lambda>c. c \<noteq> CHR ''.'') m \<noteq> [])
      in case (if x = [] then Some 0 else SignedInteger (tl x)) of
           None \<Rightarrow> None
         | Some e \<Rightarrow>
             if i = [] \<and> f = [] then None
             else if f \<noteq> [] \<or> dotted then
               (case digits_value 10 0 (i @ f) of
                  None \<Rightarrow> None
                | Some n \<Rightarrow> Some (of_nat n * pow10 (e - int (length f))))
             else map_option (\<lambda>n. of_nat n * pow10 e) (DecimalDigits i))"

definition NonDecimalIntegerLiteral :: "string \<Rightarrow> rat option" where
  "NonDecimalIntegerLiteral s =
     (let p = take 2 s; ds = drop 2 s
      in if ds = [] then None
         else if p = ''0x'' \<or> p = ''0X'' then map_option of_nat (digits_value 16 0 ds)
         else if p = ''0o'' \<or> p = ''0O'' then map_option of_nat (digits_value 8 0 ds)
         else if p = ''0b'' \<or> p = ''0B'' then map_option of_nat (digits_value 2 0 ds)
         else None)"

text \<open>
  The literal's value becomes a Number. Of the rounding to the nearest double only the two
  ends are kept, which decide whether the Number is infinite or zero: magnitudes from
  \<open>2^1024 - 2^970\<close> on round to an infinity, magnitudes up to \<open>2^-1075\<close> round to zero. In
  between the exact value stands for the double next to it.
\<close>

definition RoundMVResult :: "rat \<Rightarrow> jsnum" where
  "RoundMVResult x =
     (if 2 ^ 1024 - 2 ^ 970 \<le> \<bar>x\<bar> then (if 0 < x then PosInf else NegInf)
      else if \<bar>x\<bar> \<le> 1 / 2 ^ 1075 then Fin 0
      else Fin x)"

definition negate :: "jsnum \<Rightarrow> jsnum" where
  "negate n = (case n of NaN \<Rightarrow> NaN | PosInf \<Rightarrow> NegInf | NegInf \<Rightarrow> PosInf | Fin x \<Rightarrow> Fin (- x))"

definition StrUnsigned :: "string \<Rightarrow> jsnum" where
  "StrUnsigned s =
     (if s = ''Infinity'' then PosInf
      else case StrUnsignedDecimalLiteral s of None \<Rightarrow> NaN | Some x \<Rightarrow> RoundMVResult x)"

definition StringToNumber :: "string \<Rightarrow> jsnum" where
  "StringToNumber str =
     (let s = trim str
      in case s of
           [] \<Rightarrow> Fin 0
         | c # cs \<Rightarrow>
             (case NonDecimalIntegerLiteral s of
                Some x \<Rightarrow> RoundMVResult x
              | None \<Rightarrow>
                  if c = CHR ''+'' then StrUnsigned cs
                  else if c = CHR ''-'' then negate (StrUnsigned cs)
                  else StrUnsigned s))"

text \<open>\<open>Number(v)\<close> for a field value \<open>v\<close>, where \<open>None\<close> is \<open>undefined\<close>.\<close>

definition ToNumber :: "json option \<Rightarrow> jsnum" where
  "ToNumber v =
     (case v of
        None \<Rightarrow> NaN
      | Some JNull \<Rightarrow> Fin 0
      | Some (JBool b) \<Rightarrow> Fin (if b then 1 else 0)
      | Some (JNum x) \<Rightarrow> Fin x
      | Some (JStr s) \<Rightarrow> StringToNumber s)"

text \<open>Truthiness, as \<open>||\<close> tests it: of a field value, and of a Number.\<close>

definition ToBoolean :: "json option \<Rightarrow> bool" where
  "ToBoolean v =
     (case v of
        None \<Rightarrow> False
      | Some JNull \<Rightarrow> False
      | Some (JBool b) \<Rightarrow> b
      | Some (JNum x) \<Rightarrow> x \<noteq> 0
      | Some (JStr s) \<Rightarrow> s \<noteq> [])"

definition truthy_number :: "jsnum \<Rightarrow> bool" where
  "truthy_number n = (n \<noteq> NaN \<and> n \<noteq> Fin 0)"

text \<open>Decimal digits of a natural number.\<close>

function show_nat :: "nat \<Rightarrow> string" where
  "show_nat n =
     (if n < 10 then [''0123456789'' ! n]
      else show_nat (n div 10) @ [''0123456789'' ! (n mod 10)])"
  by pat_completeness auto
termination
  by (relation "measure id") auto

declare show_nat.simps [simp del]

text \<open>
  What the code takes from its host and what no finite table can give: the text of a
  Number that is not a small integer (the shortest digits that read back as the same
  double), the locale's rendering of the time of day of \<open>new Date(v)\<close> for a string or
  absent \<open>v\<close>, and the locale's collation.
\<close>

record host =
  NumberToString :: "rat \<Rightarrow> string"
  toLocaleTimeString :: "string option \<Rightarrow> string"
  localeCompare :: "string \<Rightarrow> string \<Rightarrow> int"




section \<open>Dates\<close>

text \<open>
  \<open>new Date(t)\<close> keeps the time value \<open>TimeClip(t)\<close>: none (an invalid date) when \<open>t\<close> is
  not finite or beyond 8.64e15 milliseconds from the epoch, else \<open>t\<close> truncated towards zero.
\<close>

definition TimeClip :: "jsnum \<Rightarrow> int option" where
  "TimeClip t =
     (case t of
        Fin x \<Rightarrow>
          if \<bar>x\<bar> \<le> 8640000000000000 then Some (if 0 \<le> x then \<lfloor>x\<rfloor> else \<lceil>x\<rceil>) else None
      | _ \<Rightarrow> None)"

text \<open>The proleptic Gregorian date of a day number counted from 1970-01-01.\<close>

definition civil_from_days :: "int \<Rightarrow> int \<times> int \<times> int" where
  "civil_from_days days =
     (let z = days + 719468;
          era = z div 146097;
          doe = z mod 146097;
          yoe = (doe - doe div 1460 + doe div 36524 - doe div 146096) div 365;
          doy = doe - (365 * yoe + yoe div 4 - yoe div 100);
          mp = (5 * doy + 2) div 153;
          d = doy - (153 * mp + 2) div 5 + 1;
          m = (if mp < 10 then mp + 3 else mp - 9);
          y = yoe + era * 400
      in (if m \<le> 2 then y + 1 else y, m, d))"

definition pad :: "nat \<Rightarrow> int \<Rightarrow> string" where
  "pad w n = replicate (w - length (show_nat (nat n))) CHR ''0'' @ show_nat (nat n)"

text \<open>
  \<open>toISOString\<close> of a valid time value: \<open>YYYY-MM-DDTHH:mm:ss.sssZ\<close>, the year with a sign
  and six digits when it is outside 0 to 9999.
\<close>

definition toISOString :: "int \<Rightarrow> string" where
  "toISOString t =
     (let ymd = civil_from_days (t div 86400000);
          y = fst ymd;
          ms = t mod 86400000;
          year = (if 0 \<le> y \<and> y \<le> 9999 then pad 4 y
                  else (if y < 0 then ''-'' else ''+'') @ pad 6 \<bar>y\<bar>)
      in year @ ''-'' @ pad 2 (fst (snd ymd)) @ ''-'' @ pad 2 (snd (snd ymd)) @ ''T''
         @ pad 2 (ms div 3600000) @ '':'' @ pad 2 (ms div 60000 mod 60) @ '':''
         @ pad 2 (ms div 1000 mod 60) @ ''.'' @ pad 3 (ms mod 1000) @ ''Z'')"

text \<open>
  The arithmetic of \<open>Date.now() - hours * 60 * 60 * 1000\<close>: a Number times a positive
  finite constant, and a finite value minus a Number.
\<close>

definition times :: "jsnum \<Rightarrow> rat \<Rightarrow> jsnum" where
  "times n c = (case n of Fin x \<Rightarrow> Fin (x * c) | _ \<Rightarrow> n)"

definition minus_from :: "rat \<Rightarrow> jsnum \<Rightarrow> jsnum" where
  "minus_from a n =
     (case n of NaN \<Rightarrow> NaN | PosInf \<Rightarrow> NegInf | NegInf \<Rightarrow> PosInf | Fin x \<Rightarrow> Fin (a - x))"

section \<open>server.js: /api/latest\<close>

text \<open>
  What becomes of a request: a JSON body is sent, or status 500 with an error message, or
  the handler throws outside any \<open>try\<close>, its promise rejects and no response is written.
\<close>

datatype response = Json "AggregationDocument list" | Error500 string | Uncaught string

text \<open>
  The loop over \<open>resources\<close>. \<open>loc = doc.location || "Unknown"\<close>; the document is stored
  under \<open>loc\<close> only when \<open>!latestByLocation[loc]\<close>, that is when the read is falsy. A stored
  document is an object and hence truthy, and so is every inherited property.
\<close>

definition loc_key :: "AggregationDocument \<Rightarrow> string" where
  "loc_key doc = or_string (location doc) ''Unknown''"

fun latestByLocation ::
  "(string \<times> AggregationDocument) list \<Rightarrow> AggregationDocument list
     \<Rightarrow> (string \<times> AggregationDocument) list" where
  "latestByLocation obj [] = obj"
| "latestByLocation obj (doc # resources) =
     (case get_property obj (loc_key doc) of
        Undefined \<Rightarrow> latestByLocation (obj @ [(loc_key doc, doc)]) resources
      | _ \<Rightarrow> latestByLocation obj resources)"

text \<open>
  The handler after \<open>fetchAll\<close>: \<open>None\<close> is a store or network error, caught and answered
  with status 500; \<open>Some resources\<close> is the answer to
  \<open>SELECT TOP 100 * FROM c ORDER BY c.windowEnd DESC\<close>.
\<close>

definition getLatest :: "AggregationDocument list option \<Rightarrow> response" where
  "getLatest fetched =
     (case fetched of
        None \<Rightarrow> Error500 ''Failed to fetch latest data''
      | Some resources \<Rightarrow> Json (Object_values (latestByLocation [] resources)))"

section \<open>server.js: /api/history\<close>

text \<open>
  The query the handler sends:
  \<open>SELECT * FROM c WHERE c.windowEnd >= @since [AND c.location = @location] ORDER BY c.windowEnd ASC\<close>,
  with the location clause and its parameter present only when \<open>location\<close> is truthy.
\<close>

record querySpec =
  since_parameter :: string
  location_parameter :: "string option"

text \<open>
  The store's answer to that query over the documents it holds: a comparison with a
  document that has no string \<open>windowEnd\<close> or \<open>location\<close> is not true, strings compare
  as such, and the matches come in ascending \<open>windowEnd\<close> with no bound on their number
  (documents with equal \<open>windowEnd\<close> are left in the order held).
\<close>

definition windowEnd_text :: "AggregationDocument \<Rightarrow> string" where
  "windowEnd_text c = (case windowEnd c of Some w \<Rightarrow> w | None \<Rightarrow> [])"

definition matches :: "querySpec \<Rightarrow> AggregationDocument \<Rightarrow> bool" where
  "matches q c =
     ((case windowEnd c of Some w \<Rightarrow> since_parameter q \<le> w | None \<Rightarrow> False) \<and>
      (case location_parameter q of None \<Rightarrow> True | Some l \<Rightarrow> location c = Some l))"

definition run_query :: "AggregationDocument list \<Rightarrow> querySpec \<Rightarrow> AggregationDocument list" where
  "run_query documents q = sort_key windowEnd_text (filter (matches q) documents)"

text \<open>The container: the documents held, and whether the store answers at all.\<close>

record container =
  documents :: "AggregationDocument list"
  reachable :: bool

text \<open>
  \<open>new Date(Date.now() - hours * 60 * 60 * 1000).toISOString()\<close>; \<open>None\<close> when the date
  is invalid, where \<open>toISOString\<close> throws a RangeError.
\<close>

definition since_of :: "int \<Rightarrow> jsnum \<Rightarrow> string option" where
  "since_of now hours =
     map_option toISOString
       (TimeClip (minus_from (of_int now) (times (times (times hours 60) 60) 1000)))"

text \<open>
  The handler, given \<open>Date.now()\<close>, the container and the two query parameters as strings
  (\<open>None\<close> when the parameter is not in the URL). \<open>since\<close> is computed before the \<open>try\<close>
  block, so only the failure of the store is caught.
\<close>

definition getHistory ::
  "int \<Rightarrow> container \<Rightarrow> string option \<Rightarrow> string option \<Rightarrow> response" where
  "getHistory now store location_query hours_query =
     (let location = or_string location_query '''';
          n = ToNumber (map_option JStr hours_query);
          hours = (if truthy_number n then n else Fin 6)
      in case since_of now hours of
           None \<Rightarrow> Uncaught ''RangeError: Invalid time value''
         | Some since \<Rightarrow>
             (let q = \<lparr>since_parameter = since,
                       location_parameter = (if location \<noteq> [] then Some location else None)\<rparr>
              in if reachable store then Json (run_query (documents store) q)
                 else Error500 ''Failed to fetch history''))"

section \<open>app.js: status cards\<close>

text \<open>
  What \<open>fetch\<close> followed by \<open>res.json()\<close> gives a renderer: a failure (network error,
  a status that is not ok, a body that is not JSON), a JSON value that is not an array, or
  an array of documents.
\<close>

datatype fetched = Failed | NotArray | Docs "AggregationDocument list"













section \<open>app.js: history charts\<close>

text \<open>\<open>v || 0\<close> on a field value.\<close>

definition or_zero :: "json option \<Rightarrow> json" where
  "or_zero v = (case v of Some x \<Rightarrow> if ToBoolean v then x else JNum 0 | None \<Rightarrow> JNum 0)"

text \<open>What \<open>new Chart(ctx, config)\<close> is given: the canvas and the three parallel arrays.\<close>

record Chart =
  chart_canvas :: string
  labels :: "string list"
  iceValues :: "jsnum list"
  tempValues :: "jsnum list"

text \<open>
  The page as the history renderer sees and changes it: the canvas elements of the
  document, the global \<open>charts\<close> object (an own property holds \<open>null\<close> or a chart handle),
  the chart instances constructed and not yet destroyed, the next fresh handle, and the
  order in which charts were destroyed and created and canvases cleared.
\<close>

datatype event = Destroyed nat | Created nat string | Cleared string

record page =
  canvases :: "string list"
  charts :: "(string \<times> nat option) list"
  live :: "(nat \<times> Chart) list"
  next_handle :: nat
  events :: "event list"

definition initial_page :: "string list \<Rightarrow> page" where
  "initial_page cs =
     \<lparr>canvases = cs, charts = [(''dows'', None), (''fifth'', None), (''nac'', None)],
      live = [], next_handle = 0, events = []\<rparr>"

definition canvasIdToKey :: "string \<Rightarrow> string" where
  "canvasIdToKey id' =
     (if id' = ''chart-dows'' then ''dows''
      else if id' = ''chart-fifth'' then ''fifth''
      else if id' = ''chart-nac'' then ''nac''
      else id')"

definition destroy :: "nat \<Rightarrow> page \<Rightarrow> page" where
  "destroy old s =
     s\<lparr>live := filter (\<lambda>hc. fst hc \<noteq> old) (live s), events := events s @ [Destroyed old]\<rparr>"

text \<open>\<open>charts[key] = new Chart(ctx, config)\<close>.\<close>

definition attach :: "string \<Rightarrow> Chart \<Rightarrow> page \<Rightarrow> page" where
  "attach key chart s =
     s\<lparr>live := live s @ [(next_handle s, chart)],
       charts := set_property (charts s) key (Some (next_handle s)),
       next_handle := Suc (next_handle s),
       events := events s @ [Created (next_handle s) (chart_canvas chart)]\<rparr>"

definition series_value :: "json option \<Rightarrow> jsnum" where
  "series_value v = ToNumber (Some (or_zero v))"

text \<open>
  The chart built from the documents of a successful fetch: the labels and the two series,
  \<open>Number(doc.avgIceThickness || 0)\<close> and \<open>Number(doc.avgSurfaceTemperature || 0)\<close>.
\<close>

definition chart_config :: "host \<Rightarrow> string \<Rightarrow> AggregationDocument list \<Rightarrow> Chart" where
  "chart_config h canvasId data =
     \<lparr>chart_canvas = canvasId,
      labels = map (\<lambda>doc. toLocaleTimeString h (windowEnd doc)) data,
      iceValues = map (\<lambda>doc. series_value (avgIceThickness doc)) data,
      tempValues = map (\<lambda>doc. series_value (avgSurfaceTemperature doc)) data\<rparr>"

text \<open>
  \<open>renderHistoryForLocation\<close> from the point where the fetch has settled; what follows
  the last \<open>await\<close> runs without interruption. A failed fetch is caught and logged. With a
  truthy \<open>charts[key]\<close> the code calls its \<open>destroy\<close>; an inherited property has none, the
  call throws a TypeError and the \<open>catch\<close> leaves the page as it was.
\<close>

definition renderHistoryForLocation :: "host \<Rightarrow> page \<Rightarrow> string \<Rightarrow> string \<Rightarrow> fetched \<Rightarrow> page" where
  "renderHistoryForLocation h s loc canvasId res =
     (if canvasId \<notin> set (canvases s) then s
      else case res of
        Failed \<Rightarrow> s
      | NotArray \<Rightarrow> s\<lparr>events := events s @ [Cleared canvasId]\<rparr>
      | Docs data \<Rightarrow>
          if data = [] then s\<lparr>events := events s @ [Cleared canvasId]\<rparr>
          else
            let chart = chart_config h canvasId data;
                key = canvasIdToKey canvasId
            in case get_property (charts s) key of
                 Inherited \<Rightarrow> s
               | Own (Some old) \<Rightarrow> attach key chart (destroy old s)
               | _ \<Rightarrow> attach key chart s)"

text \<open>
  \<open>fetchAndRenderHistory\<close> starts the three renderings at once, every 30 seconds and with
  no cancellation, so their settled parts run in any order and any number of times.
\<close>

definition history_targets :: "(string \<times> string) list" where
  "history_targets =
     [(''Dows Lake'', ''chart-dows''), (''Fifth Avenue'', ''chart-fifth''), (''NAC'', ''chart-nac'')]"

inductive reaches :: "host \<Rightarrow> string list \<Rightarrow> page \<Rightarrow> bool" for h :: host and cs :: "string list" where
  loaded: "reaches h cs (initial_page cs)"
| settled: "reaches h cs s \<Longrightarrow> (loc, canvasId) \<in> set history_targets
            \<Longrightarrow> reaches h cs (renderHistoryForLocation h s loc canvasId res)"

text \<open>The live chart instances on a canvas.\<close>

definition charts_on :: "string \<Rightarrow> page \<Rightarrow> (nat \<times> Chart) list" where
  "charts_on canvasId s = filter (\<lambda>hc. chart_canvas (snd hc) = canvasId) (live s)"

section \<open>Sample data\<close>

text \<open>
  A host, a document and a container on which the definitions are evaluated: the host
  collates by code unit and shows the \<open>HH:MM\<close> of an ISO timestamp.
\<close>

definition sample_host :: host where
  "sample_host =
     \<lparr>NumberToString = (\<lambda>x. ''1e+21''),
      toLocaleTimeString = (\<lambda>v. case v of None \<Rightarrow> ''Invalid Date'' | Some w \<Rightarrow> take 5 (drop 11 w)),
      localeCompare = (\<lambda>a b. if a < b then - 1 else if a = b then 0 else 1)\<rparr>"

definition sample_document :: "string \<Rightarrow> string \<Rightarrow> AggregationDocument" where
  "sample_document loc wend =
     \<lparr>location = Some loc, windowEnd = Some wend, avgIceThickness = Some (JNum 30),
      avgSurfaceTemperature = Some (JNum (- 5)), maxSnowAccumulation = Some (JNum 2),
      safetyStatus = Some ''Safe'', readingCount = Some (JNum 12)\<rparr>"

definition sample_store :: container where
  "sample_store =
     \<lparr>documents =
        [sample_document ''NAC'' ''2023-11-14T22:00:00.000Z'',
         sample_document ''Dows Lake'' ''2023-11-14T21:00:00.000Z'',
         sample_document ''NAC'' ''2023-11-14T10:00:00.000Z'',
         sample_document ''Fifth Avenue'' ''2023-11-13T09:00:00.000Z''],
      reachable = True\<rparr>"

section \<open>Predicates the properties are stated with\<close>

text \<open>
  The dictionary of \<open>/api/latest\<close> holds each key once, and each document under its own
  location key.
\<close>

definition keyed :: "(string \<times> AggregationDocument) list \<Rightarrow> bool" where
  "keyed obj = (distinct (map fst obj) \<and> list_all (\<lambda>kv. loc_key (snd kv) = fst kv) obj)"

text \<open>
  A document whose location is absent, empty or literally \<open>"Unknown"\<close>.
\<close>

definition unknown_location :: "AggregationDocument \<Rightarrow> bool" where
  "unknown_location doc =
     (location doc = None \<or> location doc = Some [] \<or> location doc = Some ''Unknown'')"



text \<open>
  What holds of the page at every moment: handles are fresh and held once, every live
  chart sits on a canvas of the renderer and is the one the registry holds under that
  canvas's key, and every handle in the registry is a live chart on a canvas of that key.
\<close>

definition chart_inv :: "page \<Rightarrow> bool" where
  "chart_inv s =
     (distinct (map fst (live s))
      \<and> (\<forall>hc \<in> set (live s).
            fst hc < next_handle s
            \<and> chart_canvas (snd hc) \<in> snd ` set history_targets
            \<and> map_of (charts s) (canvasIdToKey (chart_canvas (snd hc))) = Some (Some (fst hc)))
      \<and> (\<forall>k h'. map_of (charts s) k = Some (Some h') \<longrightarrow>
            (\<exists>c. (h', c) \<in> set (live s) \<and> canvasIdToKey (chart_canvas c) = k)))"

section \<open>Evaluating the built-ins\<close>

lemma show_nat_small: "n < 10 \<Longrightarrow> show_nat n = [''0123456789'' ! n]"
  by (subst show_nat.simps) simp

lemma show_nat_large: "10 \<le> n \<Longrightarrow> show_nat n = show_nat (n div 10) @ [''0123456789'' ! (n mod 10)]"
  by (subst show_nat.simps) simp

lemma replicate_eval:
  "replicate 2 c = [c, c]" "replicate 3 c = [c, c, c]" "replicate 4 c = [c, c, c, c]"
  "replicate 5 c = [c, c, c, c, c]"
  by (simp_all add: eval_nat_numeral)

lemma civil_ex: "civil_from_days 19675 = (2023, 11, 14)"
  unfolding civil_from_days_def Let_def by simp

lemma iso_ex: "toISOString 1699978400000 = ''2023-11-14T16:13:20.000Z''"
proof -
  have d: "(1699978400000::int) div 86400000 = 19675" by simp
  have m: "(1699978400000::int) mod 86400000 = 58400000" by simp
  show ?thesis
    unfolding toISOString_def Let_def d m civil_ex
    by (simp add: pad_def show_nat_small show_nat_large replicate_eval)
qed

lemma query_ex:
  "run_query (documents sample_store)
     \<lparr>since_parameter = ''2023-11-14T16:13:20.000Z'', location_parameter = None\<rparr>
   = [sample_document ''Dows Lake'' ''2023-11-14T21:00:00.000Z'',
      sample_document ''NAC'' ''2023-11-14T22:00:00.000Z'']"
  by (simp add: run_query_def sample_store_def sample_document_def matches_def windowEnd_text_def)

lemmas StringToNumber_eval =
  StringToNumber_def StrUnsigned_def trim_def StrWhiteSpaceChar_def NonDecimalIntegerLiteral_def
  StrUnsignedDecimalLiteral_def DecimalDigits_def SignedInteger_def digit_of_def pow10_def
  RoundMVResult_def negate_def

lemma Number_6: "StringToNumber ''6'' = Fin 6"
  by (simp add: StringToNumber_eval)

lemma Number_abc: "StringToNumber ''abc'' = NaN"
  by (simp add: StringToNumber_eval)









section \<open>Properties of /api/latest\<close>

lemma get_property_cases:
  "get_property obj k = Own v \<longleftrightarrow> map_of obj k = Some v"
  "get_property obj k = Inherited \<longleftrightarrow> map_of obj k = None \<and> k \<in> set Object_prototype_keys"
  "get_property obj k = Undefined \<longleftrightarrow> map_of obj k = None \<and> k \<notin> set Object_prototype_keys"
  by (simp_all add: get_property_def split: option.split)

lemma latestByLocation_map_of:
  "map_of (latestByLocation obj ds) k =
     (case map_of obj k of
        Some v \<Rightarrow> Some v
      | None \<Rightarrow> if k \<in> set Object_prototype_keys then None
                else find (\<lambda>d. loc_key d = k) ds)"
proof (induction ds arbitrary: obj)
  case Nil
  then show ?case by (simp split: option.splits)
next
  case (Cons d ds)
  show ?case
  proof (cases "get_property obj (loc_key d)")
    case (Own v)
    then have "map_of obj (loc_key d) = Some v" by (simp add: get_property_cases)
    then have "map_of obj k = None \<Longrightarrow> loc_key d \<noteq> k" by auto
    with Own Cons.IH [of obj] show ?thesis
      by (simp split: option.split)
  next
    case Inherited
    then have "k \<notin> set Object_prototype_keys \<Longrightarrow> loc_key d \<noteq> k"
      by (auto simp: get_property_cases)
    with Inherited Cons.IH [of obj] show ?thesis
      by (simp split: option.split)
  next
    case Undefined
    then have u: "map_of obj (loc_key d) = None" "loc_key d \<notin> set Object_prototype_keys"
      by (simp_all add: get_property_cases)
    have m: "map_of (obj @ [(loc_key d, d)]) k =
          (case map_of obj k of Some v \<Rightarrow> Some v
           | None \<Rightarrow> if loc_key d = k then Some d else None)"
      by (simp add: map_add_def split: option.split)
    show ?thesis
    proof (cases "map_of obj k")
      case None
      with Undefined u m Cons.IH [of "obj @ [(loc_key d, d)]", unfolded m] show ?thesis
        by (cases "loc_key d = k") simp_all
    next
      case (Some v)
      with Undefined m Cons.IH [of "obj @ [(loc_key d, d)]", unfolded m] show ?thesis
        by simp
    qed
  qed
qed

lemma latestByLocation_keyed: "keyed obj \<Longrightarrow> keyed (latestByLocation obj ds)"
proof (induction ds arbitrary: obj)
  case Nil
  then show ?case by simp
next
  case (Cons d ds)
  show ?case
  proof (cases "get_property obj (loc_key d)")
    case Undefined
    then have "map_of obj (loc_key d) = None"
      by (simp add: get_property_def split: option.splits if_splits)
    then have "loc_key d \<notin> fst ` set obj"
      by (simp add: map_of_eq_None_iff)
    with Cons.prems have "keyed (obj @ [(loc_key d, d)])"
      by (simp add: keyed_def)
    with Undefined show ?thesis using Cons.IH by simp
  qed (use Cons in simp_all)
qed

lemma mset_partition_map:
  "mset (map f (filter P xs)) + mset (map f (filter (\<lambda>x. \<not> P x) xs)) = mset (map f xs)"
  by (induction xs) simp_all

lemma Object_values_mset: "mset (Object_values obj) = mset (map snd obj)"
  using mset_partition_map [of snd "\<lambda>kv. array_index (fst kv) \<noteq> None" obj]
  by (simp add: Object_values_def)

lemma keyed_filter:
  "keyed obj \<Longrightarrow>
   filter (\<lambda>d. loc_key d = k) (map snd obj) = (case map_of obj k of None \<Rightarrow> [] | Some d \<Rightarrow> [d])"
proof (induction obj)
  case Nil
  then show ?case by simp
next
  case (Cons kv obj)
  obtain k' d' where kv: "kv = (k', d')" by (cases kv)
  from Cons.prems kv have 1: "keyed obj" and 2: "loc_key d' = k'" and 3: "k' \<notin> fst ` set obj"
    by (simp_all add: keyed_def)
  show ?case
  proof (cases "k' = k")
    case True
    with 3 have "map_of obj k = None" by (simp add: map_of_eq_None_iff)
    with Cons.IH [OF 1] True 2 kv show ?thesis by simp
  next
    case False
    with Cons.IH [OF 1] 2 kv show ?thesis by simp
  qed
qed

lemma mset_short: "mset xs = mset ys \<Longrightarrow> length ys \<le> 1 \<Longrightarrow> xs = ys"
proof (cases ys)
  case Nil
  assume "mset xs = mset ys"
  with Nil show ?thesis by simp
next
  case (Cons y ys')
  assume "mset xs = mset ys" "length ys \<le> 1"
  with Cons have "ys' = []" by simp
  with Cons \<open>mset xs = mset ys\<close> show ?thesis by simp
qed


lemma find_take1:
  "(case find P xs of None \<Rightarrow> [] | Some d \<Rightarrow> [d]) = take 1 (filter P xs)"
  by (induction xs) simp_all

lemma getLatest_filter_key:
  "filter (\<lambda>d. loc_key d = k) (Object_values (latestByLocation [] resources)) =
     (if k \<in> set Object_prototype_keys then [] else take 1 (filter (\<lambda>d. loc_key d = k) resources))"
proof -
  let ?obj = "latestByLocation [] resources"
  let ?P = "\<lambda>d. loc_key d = k"
  let ?r = "if k \<in> set Object_prototype_keys then [] else take 1 (filter ?P resources)"
  have "keyed []" by (simp add: keyed_def)
  then have "keyed ?obj" by (rule latestByLocation_keyed)
  then have "filter ?P (map snd ?obj) = (case map_of ?obj k of None \<Rightarrow> [] | Some d \<Rightarrow> [d])"
    by (rule keyed_filter)
  also have "\<dots> = ?r"
    using find_take1 [of ?P resources] by (simp add: latestByLocation_map_of)
  finally have 1: "filter ?P (map snd ?obj) = ?r" .
  have "mset (filter ?P (Object_values ?obj)) = mset (filter ?P (map snd ?obj))"
    by (simp only: mset_filter Object_values_mset)
  with 1 have "mset (filter ?P (Object_values ?obj)) = mset ?r" by simp
  moreover have "length ?r \<le> 1" by simp
  ultimately show ?thesis by (rule mset_short)
qed

text \<open>
  On a sample in descending \<open>windowEnd\<close> the document kept for a location is a newest
  one of that location in the sample.
\<close>

lemma getLatest_newest:
  assumes desc: "sorted_wrt (\<lambda>a b. windowEnd_text b \<le> windowEnd_text a) resources"
    and d: "d \<in> set (Object_values (latestByLocation [] resources))"
    and e: "e \<in> set resources" "loc_key e = loc_key d"
  shows "windowEnd_text e \<le> windowEnd_text d"
proof -
  let ?P = "\<lambda>x. loc_key x = loc_key d"
  from d have "d \<in> set (filter ?P (Object_values (latestByLocation [] resources)))" by simp
  then have "d \<in> set (take 1 (filter ?P resources))"
    by (simp add: getLatest_filter_key split: if_splits)
  then obtain rest where f: "filter ?P resources = d # rest"
    by (cases "filter ?P resources") simp_all
  from desc have "sorted_wrt (\<lambda>a b. windowEnd_text b \<le> windowEnd_text a) (filter ?P resources)"
    by (rule sorted_wrt_filter)
  then have later: "\<forall>y \<in> set rest. windowEnd_text y \<le> windowEnd_text d"
    unfolding f by simp
  from e have "e \<in> set (filter ?P resources)" by simp
  then have "e = d \<or> e \<in> set rest" unfolding f by simp
  with later show ?thesis by auto
qed

lemma loc_key_Unknown: "loc_key doc = ''Unknown'' \<longleftrightarrow> unknown_location doc"
  by (auto simp: loc_key_def or_string_def unknown_location_def split: option.splits)

text \<open>
  Claim C9. In \<open>getLatest\<close> a document whose location is absent or empty is keyed under
  \<open>"Unknown"\<close>, as is a document whose location is the string \<open>"Unknown"\<close>; of all such
  documents in a sample the result holds exactly the first one (none when there is none),
  so at most one of the two kinds appears, the one that comes first in the sample.
\<close>

theorem getLatest_Unknown_shared:
  "(loc_key doc = ''Unknown'' \<longleftrightarrow> unknown_location doc) \<and>
   (\<exists>result. getLatest (Some resources) = Json result \<and>
      filter unknown_location result = take 1 (filter unknown_location resources))"
proof -
  have "''Unknown'' \<notin> set Object_prototype_keys"
    by (simp add: Object_prototype_keys_def)
  then have "filter (\<lambda>d. loc_key d = ''Unknown'') (Object_values (latestByLocation [] resources))
      = take 1 (filter (\<lambda>d. loc_key d = ''Unknown'') resources)"
    by (simp add: getLatest_filter_key)
  then show ?thesis
    by (simp add: getLatest_def loc_key_Unknown)
qed

text \<open>
  Claim C1, where the code departs from it. A sample whose only document has the location
  \<open>"constructor"\<close> has that location key present, yet the result has no entry for it:
  \<open>latestByLocation["constructor"]\<close> reads the inherited \<open>Object\<close> function, which is truthy,
  so the document is never recorded.
\<close>

theorem getLatest_drops_inherited_key:
  "getLatest (Some [\<lparr>location = Some ''constructor'',
                      windowEnd = Some ''2024-01-01T00:00:00.000Z'',
                      avgIceThickness = Some (JNum 30), avgSurfaceTemperature = Some (JNum (-5)),
                      maxSnowAccumulation = Some (JNum 2), safetyStatus = Some ''Safe'',
                      readingCount = Some (JNum 12)\<rparr>]) = Json []"
  by (simp add: getLatest_def get_property_def loc_key_def or_string_def
      Object_prototype_keys_def Object_values_def)


section \<open>Properties of /api/history\<close>

lemma TimeClip_of_int:
  assumes "\<bar>t\<bar> \<le> 8640000000000000"
  shows "TimeClip (Fin (of_int t)) = Some t"
proof -
  have "(of_int \<bar>t\<bar> :: rat) \<le> of_int 8640000000000000"
    using assms by (simp only: of_int_le_iff)
  then have "\<bar>of_int t :: rat\<bar> \<le> 8640000000000000" by simp
  then show ?thesis by (simp add: TimeClip_def)
qed

lemma since_of_6:
  assumes "0 \<le> now" "now \<le> 8640000000000000"
  shows "since_of now (Fin 6) = Some (toISOString (now - 21600000))"
proof -
  have "\<bar>now - 21600000\<bar> \<le> 8640000000000000" using assms by linarith
  then have "TimeClip (Fin (of_int (now - 21600000))) = Some (now - 21600000)"
    by (rule TimeClip_of_int)
  moreover have "minus_from (of_int now) (times (times (times (Fin 6) 60) 60) 1000)
      = Fin (of_int (now - 21600000))"
    by (simp add: times_def minus_from_def)
  ultimately show ?thesis by (simp only: since_of_def option.map)
qed




lemma getHistory_finite:
  assumes "ToNumber (map_option JStr hours_query) = Fin h" and "h \<noteq> 0"
  shows "getHistory now store location_query hours_query =
     (case TimeClip (Fin (of_int now - h * 3600000)) of
        None \<Rightarrow> Uncaught ''RangeError: Invalid time value''
      | Some t \<Rightarrow>
          if reachable store
          then Json (run_query (documents store)
                 \<lparr>since_parameter = toISOString t,
                  location_parameter =
                    (if or_string location_query [] \<noteq> [] then Some (or_string location_query [])
                     else None)\<rparr>)
          else Error500 ''Failed to fetch history'')"
proof -
  have "times (times (times (Fin h) 60) 60) 1000 = Fin (h * 3600000)"
    by (simp add: times_def)
  then have "since_of now (Fin h) = map_option toISOString (TimeClip (Fin (of_int now - h * 3600000)))"
    by (simp add: since_of_def minus_from_def)
  with assms show ?thesis
    unfolding getHistory_def Let_def
    by (simp add: truthy_number_def split: option.split)
qed

text \<open>
  Claim C7. An \<open>hours\<close> parameter that is absent or that \<open>Number\<close> takes to \<open>NaN\<close> or to
  zero is answered exactly as \<open>hours=6\<close> is; and with \<open>Date.now()\<close> a time value at or
  after the epoch this answer is no exception: it is the result of the query with
  \<open>since\<close> six hours before now, or status 500 when the store does not answer.
\<close>

theorem getHistory_hours_default:
  assumes "ToNumber (map_option JStr hours_query) = NaN \<or> ToNumber (map_option JStr hours_query) = Fin 0"
  shows "getHistory now store location_query hours_query = getHistory now store location_query (Some ''6'')
    \<and> (0 \<le> now \<and> now \<le> 8640000000000000 \<longrightarrow>
         getHistory now store location_query hours_query =
           (if reachable store
            then Json (run_query (documents store)
                   \<lparr>since_parameter = toISOString (now - 6 * 3600000),
                    location_parameter =
                      (if or_string location_query '''' \<noteq> [] then Some (or_string location_query '''') else None)\<rparr>)
            else Error500 ''Failed to fetch history''))"
proof -
  have six: "ToNumber (map_option JStr (Some ''6'')) = Fin 6"
    by (simp add: ToNumber_def Number_6)
  have hours: "(if truthy_number (ToNumber (map_option JStr hours_query))
                then ToNumber (map_option JStr hours_query) else Fin 6) = Fin 6"
    using assms by (auto simp: truthy_number_def)
  have eq: "getHistory now store location_query hours_query
        = getHistory now store location_query (Some ''6'')"
    unfolding getHistory_def Let_def hours six by (simp add: truthy_number_def)
  moreover have "0 \<le> now \<and> now \<le> 8640000000000000 \<Longrightarrow> ?thesis"
    unfolding getHistory_def Let_def hours six
    by (simp add: truthy_number_def since_of_6)
  ultimately show ?thesis by blast
qed


lemma getHistory_6_ex:
  "getHistory 1700000000000 sample_store None (Some ''6'') =
     Json [sample_document ''Dows Lake'' ''2023-11-14T21:00:00.000Z'',
           sample_document ''NAC'' ''2023-11-14T22:00:00.000Z'']"
proof -
  have n: "ToNumber (map_option JStr (Some ''6'')) = Fin 6"
    by (simp add: ToNumber_def Number_6)
  have t: "TimeClip (Fin 1699978400000) = Some 1699978400000"
    by (simp add: TimeClip_def)
  have r: "reachable sample_store" by (simp add: sample_store_def)
  show ?thesis
    by (simp add: getHistory_finite [OF n] t r iso_ex query_ex or_string_def)
qed

theorem getHistory_hours_default_witness:
  "ToNumber (map_option JStr (Some ''abc'')) = NaN
   \<and> getHistory 1700000000000 sample_store None (Some ''abc'') =
       Json [sample_document ''Dows Lake'' ''2023-11-14T21:00:00.000Z'',
             sample_document ''NAC'' ''2023-11-14T22:00:00.000Z'']"
proof -
  have n: "ToNumber (map_option JStr (Some ''abc'')) = NaN"
    by (simp add: ToNumber_def Number_abc)
  then have "ToNumber (map_option JStr (Some ''abc'')) = NaN
      \<or> ToNumber (map_option JStr (Some ''abc'')) = Fin 0" by simp
  from getHistory_hours_default [OF this, of 1700000000000 sample_store None]
  have "getHistory 1700000000000 sample_store None (Some ''abc'')
      = getHistory 1700000000000 sample_store None (Some ''6'')" by blast
  with n show ?thesis by (simp only: getHistory_6_ex simp_thms)
qed








section \<open>Properties of the status cards\<close>













section \<open>Properties of the card order\<close>














section \<open>Properties of the history charts\<close>

lemma map_of_set_property:
  "map_of (set_property obj k v) k' = (if k' = k then Some v else map_of obj k')"
  by (induction obj) auto

lemma filter_single:
  "distinct xs \<Longrightarrow> x \<in> set xs \<Longrightarrow> P x \<Longrightarrow> (\<forall>y \<in> set xs. P y \<longrightarrow> y = x) \<Longrightarrow> filter P xs = [x]"
proof (induction xs)
  case Nil
  then show ?case by simp
next
  case (Cons a xs)
  from Cons.prems(1) have d: "distinct xs" and a: "a \<notin> set xs" by simp_all
  from Cons.prems(4) have all: "\<forall>y \<in> set xs. P y \<longrightarrow> y = x" by simp
  show ?case
  proof (cases "a = x")
    case True
    with a all have "\<forall>y \<in> set xs. \<not> P y" by blast
    then have "filter P xs = []" by (simp add: filter_empty_conv)
    with True Cons.prems(3) show ?thesis by simp
  next
    case False
    with Cons.prems(2) have x: "x \<in> set xs" by simp
    from False Cons.prems(4) have "\<not> P a" by auto
    moreover from d x Cons.prems(3) all have "filter P xs = [x]" by (rule Cons.IH)
    ultimately show ?thesis by simp
  qed
qed

lemma target_key:
  assumes "(loc, canvasId) \<in> set history_targets"
  shows "canvasIdToKey canvasId \<notin> set Object_prototype_keys"
  using assms by (auto simp: history_targets_def canvasIdToKey_def Object_prototype_keys_def)

lemma target_key_inj:
  assumes "c \<in> snd ` set history_targets" "c' \<in> snd ` set history_targets"
    and "canvasIdToKey c = canvasIdToKey c'"
  shows "c = c'"
  using assms by (auto simp: history_targets_def canvasIdToKey_def)

lemma inv_distinct: "chart_inv s \<Longrightarrow> distinct (map fst (live s))"
  by (simp add: chart_inv_def)

lemma inv_live:
  assumes "chart_inv s" and "(h', c) \<in> set (live s)"
  shows "h' < next_handle s" and "chart_canvas c \<in> snd ` set history_targets"
    and "map_of (charts s) (canvasIdToKey (chart_canvas c)) = Some (Some h')"
proof -
  from assms(1) have "\<forall>hc \<in> set (live s).
            fst hc < next_handle s
            \<and> chart_canvas (snd hc) \<in> snd ` set history_targets
            \<and> map_of (charts s) (canvasIdToKey (chart_canvas (snd hc))) = Some (Some (fst hc))"
    by (simp add: chart_inv_def)
  from bspec [OF this assms(2)]
  show "h' < next_handle s" and "chart_canvas c \<in> snd ` set history_targets"
    and "map_of (charts s) (canvasIdToKey (chart_canvas c)) = Some (Some h')"
    by simp_all
qed

lemma inv_registered:
  assumes "chart_inv s" and "map_of (charts s) k = Some (Some h')"
  shows "\<exists>c. (h', c) \<in> set (live s) \<and> canvasIdToKey (chart_canvas c) = k"
proof -
  from assms(1) have "\<forall>k h'. map_of (charts s) k = Some (Some h') \<longrightarrow>
            (\<exists>c. (h', c) \<in> set (live s) \<and> canvasIdToKey (chart_canvas c) = k)"
    by (simp add: chart_inv_def)
  with assms(2) show ?thesis by blast
qed

lemma inv_unique:
  assumes "chart_inv s" and "(h', c) \<in> set (live s)" and "(h', c') \<in> set (live s)"
  shows "c = c'"
  using inv_distinct [OF assms(1)] assms(2,3) by (rule eq_key_imp_eq_value)

text \<open>The live charts on a target canvas are the one the registry holds for it, if any.\<close>

lemma registered_on_canvas:
  assumes inv: "chart_inv s" and tgt: "(loc, canvasId) \<in> set history_targets"
    and m: "map_of (charts s) (canvasIdToKey canvasId) = Some (Some old)"
  shows "\<exists>c. (old, c) \<in> set (live s) \<and> chart_canvas c = canvasId"
proof -
  from tgt have tc: "canvasId \<in> snd ` set history_targets" by force
  from inv_registered [OF inv m] obtain c where c: "(old, c) \<in> set (live s)"
      "canvasIdToKey (chart_canvas c) = canvasIdToKey canvasId" by blast
  from inv_live(2) [OF inv c(1)] tc c(2) have "chart_canvas c = canvasId"
    by (rule target_key_inj)
  with c(1) show ?thesis by blast
qed

lemma charts_on_some:
  assumes inv: "chart_inv s" and tgt: "(loc, canvasId) \<in> set history_targets"
    and m: "map_of (charts s) (canvasIdToKey canvasId) = Some (Some old)"
  shows "\<exists>c. charts_on canvasId s = [(old, c)] \<and> filter (\<lambda>hc. fst hc = old) (live s) = [(old, c)]"
proof -
  from registered_on_canvas [OF inv tgt m] obtain c
    where c: "(old, c) \<in> set (live s)" "chart_canvas c = canvasId" by blast
  have dist: "distinct (live s)"
    using inv_distinct [OF inv] by (simp add: distinct_map)
  have 1: "\<forall>y \<in> set (live s). chart_canvas (snd y) = canvasId \<longrightarrow> y = (old, c)"
  proof (intro ballI impI)
    fix y assume y: "y \<in> set (live s)" "chart_canvas (snd y) = canvasId"
    obtain h' c' where yy: "y = (h', c')" by (cases y)
    from inv_live(3) [OF inv y(1) [unfolded yy]] y(2) m yy have "h' = old" by simp
    with y(1) yy inv_unique [OF inv _ c(1), of c'] show "y = (old, c)" by simp
  qed
  have 2: "\<forall>y \<in> set (live s). fst y = old \<longrightarrow> y = (old, c)"
  proof (intro ballI impI)
    fix y assume y: "y \<in> set (live s)" "fst y = old"
    obtain h' c' where yy: "y = (h', c')" by (cases y)
    with y inv_unique [OF inv _ c(1), of c'] show "y = (old, c)" by simp
  qed
  from dist c(1) have "filter (\<lambda>hc. chart_canvas (snd hc) = canvasId) (live s) = [(old, c)]"
    by (rule filter_single) (simp_all add: c(2) 1)
  moreover from dist c(1) have "filter (\<lambda>hc. fst hc = old) (live s) = [(old, c)]"
    by (rule filter_single) (simp_all add: 2)
  ultimately show ?thesis by (simp add: charts_on_def)
qed

lemma charts_on_none:
  assumes inv: "chart_inv s"
    and m: "\<And>old. map_of (charts s) (canvasIdToKey canvasId) \<noteq> Some (Some old)"
  shows "charts_on canvasId s = []"
proof -
  have "\<forall>y \<in> set (live s). chart_canvas (snd y) \<noteq> canvasId"
  proof
    fix y assume y: "y \<in> set (live s)"
    obtain h' c' where yy: "y = (h', c')" by (cases y)
    from inv_live(3) [OF inv y [unfolded yy]] m [of h'] yy
    show "chart_canvas (snd y) \<noteq> canvasId" by auto
  qed
  then show ?thesis by (simp add: charts_on_def filter_empty_conv)
qed

lemma render_success:
  assumes tgt: "(loc, canvasId) \<in> set history_targets"
    and dom: "canvasId \<in> set (canvases s)" and data: "data \<noteq> []"
  shows "renderHistoryForLocation h s loc canvasId (Docs data) =
     (case map_of (charts s) (canvasIdToKey canvasId) of
        Some (Some old) \<Rightarrow>
          attach (canvasIdToKey canvasId) (chart_config h canvasId data) (destroy old s)
      | _ \<Rightarrow> attach (canvasIdToKey canvasId) (chart_config h canvasId data) s)"
  using dom data target_key [OF tgt]
  by (simp add: renderHistoryForLocation_def Let_def get_property_def split: option.split)

lemma inv_replace:
  assumes inv: "chart_inv s"
    and sub: "set L \<subseteq> set (live s)" and dist: "distinct (map fst L)"
    and free: "\<And>h' c. (h', c) \<in> set L \<Longrightarrow> canvasIdToKey (chart_canvas c) \<noteq> key"
    and kept: "\<And>k h'. map_of (charts s) k = Some (Some h') \<Longrightarrow> k \<noteq> key
                 \<Longrightarrow> \<exists>c. (h', c) \<in> set L \<and> canvasIdToKey (chart_canvas c) = k"
    and tc: "chart_canvas chart \<in> snd ` set history_targets"
    and key: "canvasIdToKey (chart_canvas chart) = key"
  shows "chart_inv (s\<lparr>live := L @ [(next_handle s, chart)],
                      charts := set_property (charts s) key (Some (next_handle s)),
                      next_handle := Suc (next_handle s),
                      events := ev\<rparr>)"
proof -
  let ?n = "next_handle s"
  have old: "(h', c) \<in> set L \<Longrightarrow> h' < ?n" for h' c
    using inv_live(1) [OF inv, of h' c] sub by blast
  have 1: "distinct (map fst (L @ [(?n, chart)]))"
  proof -
    have "?n \<notin> fst ` set L" using old by force
    with dist show ?thesis by simp
  qed
  have 2: "fst hc < Suc ?n
           \<and> chart_canvas (snd hc) \<in> snd ` set history_targets
           \<and> map_of (set_property (charts s) key (Some ?n)) (canvasIdToKey (chart_canvas (snd hc)))
               = Some (Some (fst hc))"
    if "hc \<in> set (L @ [(?n, chart)])" for hc
  proof (cases "hc = (?n, chart)")
    case True
    with tc key show ?thesis by (simp add: map_of_set_property)
  next
    case False
    obtain h' c where hc: "hc = (h', c)" by (cases hc)
    with False that have mem: "(h', c) \<in> set L" by auto
    with sub have l: "(h', c) \<in> set (live s)" by blast
    from inv_live [OF inv l] free [OF mem] hc show ?thesis
      by (simp add: map_of_set_property)
  qed
  have 3: "\<exists>c. (h', c) \<in> set (L @ [(?n, chart)]) \<and> canvasIdToKey (chart_canvas c) = k"
    if "map_of (set_property (charts s) key (Some ?n)) k = Some (Some h')" for k h'
  proof (cases "k = key")
    case True
    with that have "h' = ?n" by (simp add: map_of_set_property)
    with True key show ?thesis by auto
  next
    case False
    with that have "map_of (charts s) k = Some (Some h')" by (simp add: map_of_set_property)
    from kept [OF this False] show ?thesis by auto
  qed
  show ?thesis
    unfolding chart_inv_def using 1 2 3 by simp
qed

lemma inv_render_success:
  assumes inv: "chart_inv s" and tgt: "(loc, canvasId) \<in> set history_targets"
    and dom: "canvasId \<in> set (canvases s)" and data: "data \<noteq> []"
  shows "chart_inv (renderHistoryForLocation h s loc canvasId (Docs data))"
proof -
  let ?key = "canvasIdToKey canvasId"
  let ?chart = "chart_config h canvasId data"
  from tgt have tc: "chart_canvas ?chart \<in> snd ` set history_targets"
    by (force simp: chart_config_def)
  have key: "canvasIdToKey (chart_canvas ?chart) = ?key" by (simp add: chart_config_def)
  show ?thesis
  proof (cases "\<exists>old. map_of (charts s) ?key = Some (Some old)")
    case True
    then obtain old where m: "map_of (charts s) ?key = Some (Some old)" by blast
    from registered_on_canvas [OF inv tgt m] obtain c0
      where c0: "(old, c0) \<in> set (live s)" "chart_canvas c0 = canvasId" by blast
    let ?L = "filter (\<lambda>hc. fst hc \<noteq> old) (live s)"
    have "chart_inv (s\<lparr>live := ?L @ [(next_handle s, ?chart)],
                      charts := set_property (charts s) ?key (Some (next_handle s)),
                      next_handle := Suc (next_handle s),
                      events := (events s @ [Destroyed old]) @ [Created (next_handle s) canvasId]\<rparr>)"
    proof (rule inv_replace [OF inv _ _ _ _ tc key])
      show "set ?L \<subseteq> set (live s)" by simp
      show "distinct (map fst ?L)" using inv_distinct [OF inv] by (rule distinct_map_filter)
      show "canvasIdToKey (chart_canvas c) \<noteq> ?key" if "(h', c) \<in> set ?L" for h' c
      proof
        assume "canvasIdToKey (chart_canvas c) = ?key"
        with that inv_live(3) [OF inv, of h' c] m have "h' = old" by simp
        with that show False by simp
      qed
      show "\<exists>c. (h', c) \<in> set ?L \<and> canvasIdToKey (chart_canvas c) = k"
        if k: "map_of (charts s) k = Some (Some h')" "k \<noteq> ?key" for k h'
      proof -
        from inv_registered [OF inv k(1)] obtain c
          where c: "(h', c) \<in> set (live s)" "canvasIdToKey (chart_canvas c) = k" by blast
        have "h' \<noteq> old"
        proof
          assume "h' = old"
          with c(1) c0(1) inv_unique [OF inv, of old c c0] have "c = c0" by simp
          with c(2) c0(2) k(2) show False by simp
        qed
        with c show ?thesis by auto
      qed
    qed
    with m show ?thesis
      by (simp add: render_success [OF tgt dom data] attach_def destroy_def chart_config_def)
  next
    case False
    have "chart_inv (s\<lparr>live := live s @ [(next_handle s, ?chart)],
                      charts := set_property (charts s) ?key (Some (next_handle s)),
                      next_handle := Suc (next_handle s),
                      events := events s @ [Created (next_handle s) canvasId]\<rparr>)"
    proof (rule inv_replace [OF inv _ _ _ _ tc key])
      show "set (live s) \<subseteq> set (live s)" by simp
      show "distinct (map fst (live s))" by (rule inv_distinct [OF inv])
      show "canvasIdToKey (chart_canvas c) \<noteq> ?key" if "(h', c) \<in> set (live s)" for h' c
        using inv_live(3) [OF inv that] False by auto
      show "\<exists>c. (h', c) \<in> set (live s) \<and> canvasIdToKey (chart_canvas c) = k"
        if "map_of (charts s) k = Some (Some h')" "k \<noteq> ?key" for k h'
        using inv_registered [OF inv that(1)] .
    qed
    moreover from False have "(case map_of (charts s) ?key of
        Some (Some old) \<Rightarrow> attach ?key ?chart (destroy old s)
      | _ \<Rightarrow> attach ?key ?chart s) = attach ?key ?chart s"
      by (auto split: option.split)
    ultimately show ?thesis
      by (simp add: render_success [OF tgt dom data] attach_def chart_config_def)
  qed
qed

lemma inv_events: "chart_inv (s\<lparr>events := ev\<rparr>) = chart_inv s"
  by (simp add: chart_inv_def)

lemma inv_render:
  assumes inv: "chart_inv s" and tgt: "(loc, canvasId) \<in> set history_targets"
  shows "chart_inv (renderHistoryForLocation h s loc canvasId res)"
proof (cases "canvasId \<in> set (canvases s)")
  case False
  with inv show ?thesis by (simp add: renderHistoryForLocation_def)
next
  case True
  show ?thesis
  proof (cases res)
    case Failed
    with inv show ?thesis by (simp add: renderHistoryForLocation_def)
  next
    case NotArray
    with inv True show ?thesis by (simp add: renderHistoryForLocation_def inv_events)
  next
    case (Docs data)
    show ?thesis
    proof (cases "data = []")
      case e: True
      with inv True Docs show ?thesis by (simp add: renderHistoryForLocation_def inv_events)
    next
      case False
      with inv tgt True Docs show ?thesis by (simp add: inv_render_success)
    qed
  qed
qed

lemma reaches_inv: "reaches h cs s \<Longrightarrow> chart_inv s"
proof (induction rule: reaches.induct)
  case loaded
  show ?case by (simp add: chart_inv_def initial_page_def)
next
  case (settled s loc canvasId res)
  then show ?case by (simp add: inv_render)
qed

lemma render_step:
  assumes inv: "chart_inv s" and tgt: "(loc, canvasId) \<in> set history_targets"
    and dom: "canvasId \<in> set (canvases s)" and data: "data \<noteq> []"
  shows "charts_on canvasId (renderHistoryForLocation h s loc canvasId (Docs data))
           = [(next_handle s, chart_config h canvasId data)]"
    and "events (renderHistoryForLocation h s loc canvasId (Docs data))
           = events s @ map (\<lambda>hc. Destroyed (fst hc)) (charts_on canvasId s)
             @ [Created (next_handle s) canvasId]"
    and "c' \<noteq> canvasId \<Longrightarrow>
         charts_on c' (renderHistoryForLocation h s loc canvasId (Docs data)) = charts_on c' s"
proof -
  let ?key = "canvasIdToKey canvasId"
  let ?chart = "chart_config h canvasId data"
  let ?s' = "renderHistoryForLocation h s loc canvasId (Docs data)"
  have cc: "chart_canvas ?chart = canvasId" by (simp add: chart_config_def)
  have "charts_on canvasId ?s' = [(next_handle s, ?chart)]
      \<and> events ?s' = events s @ map (\<lambda>hc. Destroyed (fst hc)) (charts_on canvasId s)
             @ [Created (next_handle s) canvasId]
      \<and> (c' \<noteq> canvasId \<longrightarrow> charts_on c' ?s' = charts_on c' s)"
  proof (cases "\<exists>old. map_of (charts s) ?key = Some (Some old)")
    case True
    then obtain old where m: "map_of (charts s) ?key = Some (Some old)" by blast
    from charts_on_some [OF inv tgt m] obtain c where
      on: "charts_on canvasId s = [(old, c)]" and
      byh: "filter (\<lambda>hc. fst hc = old) (live s) = [(old, c)]" by blast
    from on have con: "filter (\<lambda>hc. chart_canvas (snd hc) = canvasId) (live s) = [(old, c)]"
      by (simp add: charts_on_def)
    have "(old, c) \<in> set (filter (\<lambda>hc. chart_canvas (snd hc) = canvasId) (live s))"
      unfolding con by simp
    then have cv: "chart_canvas c = canvasId" by simp
    have s': "?s' = attach ?key ?chart (destroy old s)"
      using m by (simp add: render_success [OF tgt dom data])
    have "filter (\<lambda>hc. chart_canvas (snd hc) = canvasId) (filter (\<lambda>hc. fst hc \<noteq> old) (live s))
        = filter (\<lambda>hc. fst hc \<noteq> old) (filter (\<lambda>hc. chart_canvas (snd hc) = canvasId) (live s))"
      by (simp add: conj_commute)
    also have "\<dots> = []" unfolding con by simp
    finally have 1: "charts_on canvasId ?s' = [(next_handle s, ?chart)]"
      by (simp add: s' attach_def destroy_def charts_on_def cc)
    have 2: "events ?s' = events s @ map (\<lambda>hc. Destroyed (fst hc)) (charts_on canvasId s)
             @ [Created (next_handle s) canvasId]"
      by (simp add: s' on attach_def destroy_def cc)
    have 3: "charts_on c' ?s' = charts_on c' s" if ne: "c' \<noteq> canvasId"
    proof -
      have "hc \<in> set (live s) \<Longrightarrow> chart_canvas (snd hc) = c' \<Longrightarrow> fst hc \<noteq> old" for hc
      proof
        assume a: "hc \<in> set (live s)" "chart_canvas (snd hc) = c'" "fst hc = old"
        then have "hc \<in> set (filter (\<lambda>hc. fst hc = old) (live s))" by simp
        with byh have "hc = (old, c)" by simp
        with a(2) cv ne show False by simp
      qed
      then have "filter (\<lambda>hc. fst hc \<noteq> old \<and> chart_canvas (snd hc) = c') (live s)
          = filter (\<lambda>hc. chart_canvas (snd hc) = c') (live s)"
        by (intro filter_cong refl) blast
      then have "filter (\<lambda>hc. chart_canvas (snd hc) = c') (filter (\<lambda>hc. fst hc \<noteq> old) (live s))
          = filter (\<lambda>hc. chart_canvas (snd hc) = c') (live s)"
        by simp
      with ne show ?thesis
        by (simp add: s' attach_def destroy_def charts_on_def cc)
    qed
    from 1 2 3 show ?thesis by simp
  next
    case False
    then have none: "\<And>old. map_of (charts s) ?key \<noteq> Some (Some old)" by blast
    have on: "charts_on canvasId s = []" using inv none by (rule charts_on_none)
    from False have "(case map_of (charts s) ?key of
        Some (Some old) \<Rightarrow> attach ?key ?chart (destroy old s)
      | _ \<Rightarrow> attach ?key ?chart s) = attach ?key ?chart s"
      by (auto split: option.split)
    then have s': "?s' = attach ?key ?chart s"
      by (simp add: render_success [OF tgt dom data])
    from on have 1: "charts_on canvasId ?s' = [(next_handle s, ?chart)]"
      by (simp add: s' attach_def charts_on_def cc)
    have 2: "events ?s' = events s @ map (\<lambda>hc. Destroyed (fst hc)) (charts_on canvasId s)
             @ [Created (next_handle s) canvasId]"
      by (simp add: s' on attach_def cc)
    have 3: "c' \<noteq> canvasId \<longrightarrow> charts_on c' ?s' = charts_on c' s"
      by (simp add: s' attach_def charts_on_def cc)
    from 1 2 3 show ?thesis by simp
  qed
  then show "charts_on canvasId ?s' = [(next_handle s, ?chart)]"
    and "events ?s' = events s @ map (\<lambda>hc. Destroyed (fst hc)) (charts_on canvasId s)
             @ [Created (next_handle s) canvasId]"
    and "c' \<noteq> canvasId \<Longrightarrow> charts_on c' ?s' = charts_on c' s"
    by simp_all
qed

lemma charts_on_at_most_one:
  assumes inv: "chart_inv s"
  shows "length (charts_on canvasId s) \<le> 1"
proof (cases "\<exists>loc. (loc, canvasId) \<in> set history_targets")
  case True
  then obtain loc where tgt: "(loc, canvasId) \<in> set history_targets" by blast
  show ?thesis
  proof (cases "\<exists>old. map_of (charts s) (canvasIdToKey canvasId) = Some (Some old)")
    case True
    then obtain old where "map_of (charts s) (canvasIdToKey canvasId) = Some (Some old)" by blast
    from charts_on_some [OF inv tgt this] obtain c where "charts_on canvasId s = [(old, c)]"
      by blast
    then show ?thesis by simp
  next
    case False
    then have "\<And>old. map_of (charts s) (canvasIdToKey canvasId) \<noteq> Some (Some old)" by blast
    with inv have "charts_on canvasId s = []" by (rule charts_on_none)
    then show ?thesis by simp
  qed
next
  case False
  have "\<forall>hc \<in> set (live s). chart_canvas (snd hc) \<noteq> canvasId"
  proof
    fix hc assume hc: "hc \<in> set (live s)"
    obtain h' c where p: "hc = (h', c)" by (cases hc)
    from inv_live(2) [OF inv hc [unfolded p]] False p
    show "chart_canvas (snd hc) \<noteq> canvasId" by force
  qed
  then show ?thesis by (simp add: charts_on_def filter_empty_conv)
qed

text \<open>
  Claim C3. At every moment of the dashboard, whatever the fetches gave and in whatever
  order they settled, each canvas of the history renderer carries at most one live chart.
  A failed fetch leaves the page, and so the chart, as it was. A fetch that brings
  documents leaves exactly one live chart on its canvas, the new one: it is created when
  the canvas had none, and otherwise the chart the canvas had is destroyed first and the
  new one created after it; the charts on the other canvases stay.
\<close>

theorem one_chart_per_canvas:
  assumes "reaches h cs s" and "(loc, canvasId) \<in> set history_targets"
  shows "length (charts_on canvasId s) \<le> 1
     \<and> renderHistoryForLocation h s loc canvasId Failed = s
     \<and> (canvasId \<in> set (canvases s) \<and> data \<noteq> [] \<longrightarrow>
          charts_on canvasId (renderHistoryForLocation h s loc canvasId (Docs data))
            = [(next_handle s, chart_config h canvasId data)]
          \<and> events (renderHistoryForLocation h s loc canvasId (Docs data))
            = events s @ map (\<lambda>hc. Destroyed (fst hc)) (charts_on canvasId s)
              @ [Created (next_handle s) canvasId]
          \<and> (\<forall>c'. c' \<noteq> canvasId \<longrightarrow>
                charts_on c' (renderHistoryForLocation h s loc canvasId (Docs data))
                  = charts_on c' s))"
proof -
  from assms(1) have inv: "chart_inv s" by (rule reaches_inv)
  have 1: "length (charts_on canvasId s) \<le> 1" using inv by (rule charts_on_at_most_one)
  have 2: "renderHistoryForLocation h s loc canvasId Failed = s"
    by (simp add: renderHistoryForLocation_def)
  have 3: "canvasId \<in> set (canvases s) \<and> data \<noteq> [] \<longrightarrow>
          charts_on canvasId (renderHistoryForLocation h s loc canvasId (Docs data))
            = [(next_handle s, chart_config h canvasId data)]
          \<and> events (renderHistoryForLocation h s loc canvasId (Docs data))
            = events s @ map (\<lambda>hc. Destroyed (fst hc)) (charts_on canvasId s)
              @ [Created (next_handle s) canvasId]
          \<and> (\<forall>c'. c' \<noteq> canvasId \<longrightarrow>
                charts_on c' (renderHistoryForLocation h s loc canvasId (Docs data))
                  = charts_on c' s)"
    using render_step [OF inv assms(2), where data = data and h = h] by simp
  from 1 2 3 show ?thesis by simp
qed

lemma first_render_ex:
  "renderHistoryForLocation sample_host (initial_page [''chart-dows'', ''chart-fifth'', ''chart-nac''])
     ''Dows Lake'' ''chart-dows'' (Docs [d])
   = \<lparr>canvases = [''chart-dows'', ''chart-fifth'', ''chart-nac''],
      charts = [(''dows'', Some 0), (''fifth'', None), (''nac'', None)],
      live = [(0, chart_config sample_host ''chart-dows'' [d])],
      next_handle = 1,
      events = [Created 0 ''chart-dows'']\<rparr>"
  by (simp add: renderHistoryForLocation_def Let_def initial_page_def canvasIdToKey_def
      get_property_def attach_def chart_config_def)

theorem one_chart_per_canvas_witness:
  "reaches sample_host [''chart-dows'', ''chart-fifth'', ''chart-nac'']
     (renderHistoryForLocation sample_host
        (initial_page [''chart-dows'', ''chart-fifth'', ''chart-nac''])
        ''Dows Lake'' ''chart-dows'' (Docs [sample_document ''Dows Lake'' ''2023-11-14T21:00:00.000Z'']))
   \<and> charts_on ''chart-dows''
        (renderHistoryForLocation sample_host
          (renderHistoryForLocation sample_host
             (initial_page [''chart-dows'', ''chart-fifth'', ''chart-nac''])
             ''Dows Lake'' ''chart-dows'' (Docs [sample_document ''Dows Lake'' ''2023-11-14T21:00:00.000Z'']))
          ''Dows Lake'' ''chart-dows'' (Docs [sample_document ''Dows Lake'' ''2023-11-14T22:00:00.000Z'']))
       = [(1, chart_config sample_host ''chart-dows''
                [sample_document ''Dows Lake'' ''2023-11-14T22:00:00.000Z''])]
   \<and> events
        (renderHistoryForLocation sample_host
          (renderHistoryForLocation sample_host
             (initial_page [''chart-dows'', ''chart-fifth'', ''chart-nac''])
             ''Dows Lake'' ''chart-dows'' (Docs [sample_document ''Dows Lake'' ''2023-11-14T21:00:00.000Z'']))
          ''Dows Lake'' ''chart-dows'' (Docs [sample_document ''Dows Lake'' ''2023-11-14T22:00:00.000Z'']))
       = [Created 0 ''chart-dows'', Destroyed 0, Created 1 ''chart-dows'']"
proof -
  let ?cs = "[''chart-dows'', ''chart-fifth'', ''chart-nac'']"
  let ?d1 = "sample_document ''Dows Lake'' ''2023-11-14T21:00:00.000Z''"
  let ?d2 = "sample_document ''Dows Lake'' ''2023-11-14T22:00:00.000Z''"
  let ?s1 = "renderHistoryForLocation sample_host (initial_page ?cs) ''Dows Lake'' ''chart-dows'' (Docs [?d1])"
  have tgt: "(''Dows Lake'', ''chart-dows'') \<in> set history_targets"
    by (simp add: history_targets_def)
  have r: "reaches sample_host ?cs ?s1"
    using reaches.loaded tgt by (rule reaches.settled)
  have s1: "canvases ?s1 = ?cs" "next_handle ?s1 = 1" "events ?s1 = [Created 0 ''chart-dows'']"
    "charts_on ''chart-dows'' ?s1 = [(0, chart_config sample_host ''chart-dows'' [?d1])]"
    by (simp_all add: first_render_ex charts_on_def chart_config_def)
  from one_chart_per_canvas [OF r tgt, of "[?d2]"]
  have "charts_on ''chart-dows'' (renderHistoryForLocation sample_host ?s1 ''Dows Lake'' ''chart-dows'' (Docs [?d2]))
            = [(next_handle ?s1, chart_config sample_host ''chart-dows'' [?d2])]
      \<and> events (renderHistoryForLocation sample_host ?s1 ''Dows Lake'' ''chart-dows'' (Docs [?d2]))
            = events ?s1 @ map (\<lambda>hc. Destroyed (fst hc)) (charts_on ''chart-dows'' ?s1)
              @ [Created (next_handle ?s1) ''chart-dows'']"
    by (simp add: s1(1))
  then have "charts_on ''chart-dows'' (renderHistoryForLocation sample_host ?s1 ''Dows Lake'' ''chart-dows'' (Docs [?d2]))
            = [(1, chart_config sample_host ''chart-dows'' [?d2])]
      \<and> events (renderHistoryForLocation sample_host ?s1 ''Dows Lake'' ''chart-dows'' (Docs [?d2]))
            = [Created 0 ''chart-dows'', Destroyed 0, Created 1 ''chart-dows'']"
    by (simp add: s1)
  with r show ?thesis by simp
qed

lemma series_value_cases:
  "series_value (Some (JNum x)) = Fin x"
  "series_value None = Fin 0"
  "series_value (Some JNull) = Fin 0"
  "series_value (Some (JStr [])) = Fin 0"
  "series_value (Some (JBool False)) = Fin 0"
  by (simp_all add: series_value_def or_zero_def ToBoolean_def ToNumber_def)

text \<open>
  Claim C8, amended. A fetch that brings documents always ends with the new chart, built
  without any error whatever the fields hold; its ice and temperature series have, for
  each document, the field's value when it is a number and 0 when the field is missing,
  \<open>null\<close> or the empty string.
\<close>

theorem chart_series_values:
  assumes "(loc, canvasId) \<in> set history_targets" and "canvasId \<in> set (canvases s)"
    and "data \<noteq> []"
  shows "(\<exists>chart. last (live (renderHistoryForLocation h s loc canvasId (Docs data)))
                   = (next_handle s, chart)
            \<and> chart_canvas chart = canvasId
            \<and> iceValues chart = map (\<lambda>doc. series_value (avgIceThickness doc)) data
            \<and> tempValues chart = map (\<lambda>doc. series_value (avgSurfaceTemperature doc)) data)
       \<and> series_value (Some (JNum x)) = Fin x
       \<and> series_value None = Fin 0
       \<and> series_value (Some JNull) = Fin 0
       \<and> series_value (Some (JStr [])) = Fin 0"
proof -
  have "last (live (renderHistoryForLocation h s loc canvasId (Docs data)))
      = (next_handle s, chart_config h canvasId data)"
    by (simp add: render_success [OF assms] attach_def destroy_def split: option.split)
  then have "\<exists>chart. last (live (renderHistoryForLocation h s loc canvasId (Docs data)))
                   = (next_handle s, chart)
            \<and> chart_canvas chart = canvasId
            \<and> iceValues chart = map (\<lambda>doc. series_value (avgIceThickness doc)) data
            \<and> tempValues chart = map (\<lambda>doc. series_value (avgSurfaceTemperature doc)) data"
    by (intro exI [of _ "chart_config h canvasId data"]) (simp add: chart_config_def)
  then show ?thesis by (simp add: series_value_cases)
qed

theorem chart_series_values_witness:
  "(\<exists>chart. last (live (renderHistoryForLocation sample_host
              (initial_page [''chart-dows'', ''chart-fifth'', ''chart-nac''])
              ''Dows Lake'' ''chart-dows''
              (Docs [sample_document ''Dows Lake'' ''2023-11-14T21:00:00.000Z'',
                     (sample_document ''Dows Lake'' ''2023-11-14T22:00:00.000Z'')
                       \<lparr>avgIceThickness := None\<rparr>])))
            = (0, chart)
      \<and> iceValues chart = [Fin 30, Fin 0] \<and> tempValues chart = [Fin (- 5), Fin (- 5)])"
proof -
  let ?cs = "[''chart-dows'', ''chart-fifth'', ''chart-nac'']"
  let ?data = "[sample_document ''Dows Lake'' ''2023-11-14T21:00:00.000Z'',
                (sample_document ''Dows Lake'' ''2023-11-14T22:00:00.000Z'')\<lparr>avgIceThickness := None\<rparr>]"
  have tgt: "(''Dows Lake'', ''chart-dows'') \<in> set history_targets"
    by (simp add: history_targets_def)
  have dom: "''chart-dows'' \<in> set (canvases (initial_page ?cs))"
    by (simp add: initial_page_def)
  have ne: "?data \<noteq> []" by simp
  from chart_series_values [OF tgt dom ne, of sample_host]
  obtain chart where c: "last (live (renderHistoryForLocation sample_host (initial_page ?cs)
              ''Dows Lake'' ''chart-dows'' (Docs ?data))) = (next_handle (initial_page ?cs), chart)"
    "iceValues chart = map (\<lambda>doc. series_value (avgIceThickness doc)) ?data"
    "tempValues chart = map (\<lambda>doc. series_value (avgSurfaceTemperature doc)) ?data"
    by blast
  have "next_handle (initial_page ?cs) = 0" by (simp add: initial_page_def)
  moreover have "map (\<lambda>doc. series_value (avgIceThickness doc)) ?data = [Fin 30, Fin 0]"
    by (simp add: sample_document_def series_value_cases)
  moreover have "map (\<lambda>doc. series_value (avgSurfaceTemperature doc)) ?data = [Fin (- 5), Fin (- 5)]"
    by (simp add: sample_document_def series_value_cases)
  ultimately show ?thesis using c by auto
qed

text \<open>
  Claim C8 as stated fails on a non-numeric string: \<open>"abc" || 0\<close> is \<open>"abc"\<close>, and
  \<open>Number("abc")\<close> is \<open>NaN\<close>, not 0.
\<close>

theorem non_numeric_string_charts_NaN:
  "map (\<lambda>hc. iceValues (snd hc))
     (live (renderHistoryForLocation sample_host
        (initial_page [''chart-dows'', ''chart-fifth'', ''chart-nac''])
        ''Dows Lake'' ''chart-dows''
        (Docs [(sample_document ''Dows Lake'' ''2023-11-14T21:00:00.000Z'')
                 \<lparr>avgIceThickness := Some (JStr ''abc'')\<rparr>])))
   = [[NaN]]"
  by (simp add: first_render_ex chart_config_def series_value_def or_zero_def ToBoolean_def
      ToNumber_def Number_abc)

end
